theory Spec2Isabelle
  imports Complex_Main "HOL-Library.Word"
begin

section \<open>The data source\<close>

text \<open>
  The script \<^verbatim>\<open>tools/writeback/wb_monitor.py\<close> reads a live kernel through drgn.
  What it reads is modelled as plain values: one record per kernel object, each field
  holding the value the corresponding drgn expression evaluates to during one pass.
  Pointers are addresses (\<open>nat\<close>).

  An integer read from the kernel is a drgn object that keeps its C type, and drgn
  computes on such objects in C arithmetic. The types are declared by the kernel, not by
  the script: the counter \<^verbatim>\<open>wb.stat[i].count\<close> is an \<^verbatim>\<open>s64\<close>, and
  \<^verbatim>\<open>wb.avg_write_bandwidth\<close> is an \<^verbatim>\<open>unsigned long\<close>, 64 bits wide on a 64-bit
  kernel. \<open>py_int\<close> is Python's \<^verbatim>\<open>int(obj)\<close>.
\<close>

datatype error = ReError | ValueError | IndexError | OverflowError

datatype drgn_int = S64 "64 word" | U64 "64 word"

definition py_int :: "drgn_int \<Rightarrow> int" where
  "py_int obj = (case obj of S64 w \<Rightarrow> sint w | U64 w \<Rightarrow> uint w)"

text \<open>
  The constants the script takes from the kernel image (\<^verbatim>\<open>prog['WB_RECLAIMABLE']\<close>
  and so on). Their values are declared by the kernel, so they are parameters here.
\<close>

record prog =
  WB_RECLAIMABLE :: nat
  WB_WRITEBACK :: nat
  WB_DIRTIED :: nat
  WB_WRITTEN :: nat
  NR_WB_STAT_ITEMS :: nat
  PAGE_SHIFT :: int

text \<open>
  \<open>dev_name\<close> is \<^verbatim>\<open>bdi.dev_name.string_().decode()\<close>, \<open>bdi_wb_address\<close> is
  \<^verbatim>\<open>bdi.wb.address_of_()\<close>, the address of the writeback structure embedded in the
  device.
\<close>

record bdi_core =
  dev_name :: string
  bdi_wb_address :: nat

text \<open>
  One \<^verbatim>\<open>struct bdi_writeback\<close> as \<^verbatim>\<open>WbStats.__init__\<close> reads it: \<open>wb_address\<close> is the
  pointer \<^verbatim>\<open>wb\<close> itself, \<open>wb_bdi\<close> what \<^verbatim>\<open>wb.bdi\<close> points to, \<open>wb_memcg_id\<close> is
  \<^verbatim>\<open>wb.memcg_css.cgroup.kn.id.value_()\<close>, \<open>wb_stat i\<close> is \<^verbatim>\<open>wb.stat[i].count\<close>
  (drgn does not check the bounds of a C array, so every index reads a value).
\<close>

record bdi_writeback =
  wb_address :: nat
  wb_bdi :: bdi_core
  wb_memcg_id :: int
  wb_stat :: "nat \<Rightarrow> 64 word"
  wb_avg_write_bandwidth :: "64 word"

record backing_dev_info = bdi_core +
  wb_list :: "bdi_writeback list"

text \<open>
  The parsed command line (\<^verbatim>\<open>args\<close>). The interval is a Python float; it is a real
  number here, which leaves out the values \<^verbatim>\<open>nan\<close> and \<^verbatim>\<open>inf\<close>.
\<close>

record args =
  args_bdi :: "string list"
  args_interval :: real
  args_json :: bool
  args_cgroup :: bool

section \<open>Strings\<close>

text \<open>Python's \<^verbatim>\<open>str(n)\<close> for an integer: decimal digits, a minus sign when negative.\<close>

definition digit_char :: "nat \<Rightarrow> char" where
  "digit_char d = ''0123456789'' ! d"

fun str_nat :: "nat \<Rightarrow> string" where
  "str_nat n = (if n < 10 then [digit_char n] else str_nat (n div 10) @ [digit_char (n mod 10)])"

declare str_nat.simps [simp del]

definition str_int :: "int \<Rightarrow> string" where
  "str_int i = (if i < 0 then CHR ''-'' # str_nat (nat (- i)) else str_nat (nat i))"

text \<open>
  The format specifications the script uses: \<^verbatim>\<open>{s:16}\<close> pads a string on the right
  (strings are left-aligned by default), \<^verbatim>\<open>{n:10}\<close> pads an integer on the left
  (numbers are right-aligned by default), \<^verbatim>\<open>{s:>16}\<close> pads a string on the left.
  None of them truncates: the width is a minimum.
\<close>

definition format_str :: "nat \<Rightarrow> string \<Rightarrow> string" where
  "format_str w s = s @ replicate (w - length s) CHR '' ''"

definition format_str_right :: "nat \<Rightarrow> string \<Rightarrow> string" where
  "format_str_right w s = replicate (w - length s) CHR '' '' @ s"

definition format_int :: "nat \<Rightarrow> int \<Rightarrow> string" where
  "format_int w i = replicate (w - length (str_int i)) CHR '' '' @ str_int i"

text \<open>The slice \<^verbatim>\<open>s[-16:]\<close>: the last 16 characters, all of \<open>s\<close> when it is shorter.\<close>

definition last16 :: "string \<Rightarrow> string" where
  "last16 s = drop (length s - 16) s"

text \<open>\<^verbatim>\<open>sep.join(xs)\<close>.\<close>

fun join :: "string \<Rightarrow> string list \<Rightarrow> string" where
  "join sep [] = []"
| "join sep [x] = x"
| "join sep (x # y # ys) = x @ sep @ join sep (y # ys)"

text \<open>\<^verbatim>\<open>xs[i]\<close> for a non-negative index: IndexError out of range.\<close>

definition getitem :: "'a list \<Rightarrow> nat \<Rightarrow> error + 'a" where
  "getitem xs i = (if i < length xs then Inr (xs ! i) else Inl IndexError)"

section \<open>Unit conversion\<close>

text \<open>
  \<^verbatim>\<open>def K(x): return x << (PAGE_SHIFT - 10)\<close>. The script calls it on drgn objects
  only, and converts the result with \<^verbatim>\<open>int\<close> afterwards, so the shift is the C one: the
  result has the type of \<open>x\<close> and keeps the low 64 bits. A negative shift count raises
  ValueError.
\<close>

definition K :: "prog \<Rightarrow> drgn_int \<Rightarrow> error + drgn_int" where
  "K c x =
     (if PAGE_SHIFT c - 10 < 0 then Inl ValueError
      else Inr (case x of
                  S64 w \<Rightarrow> S64 (push_bit (nat (PAGE_SHIFT c - 10)) w)
                | U64 w \<Rightarrow> U64 (push_bit (nat (PAGE_SHIFT c - 10)) w)))"

section \<open>Statistics objects\<close>

text \<open>An instance of \<^verbatim>\<open>Stats\<close>: the attributes \<open>name\<close>, \<open>stats\<close> and \<open>avg_bw\<close>.\<close>

record Stats =
  name :: string
  stats :: "int list"
  avg_bw :: int

datatype pyval = PyFloat real | PyStr string | PyInt int

text \<open>What the script does to the outside: a line printed, a dictionary printed, a sleep.\<close>

datatype event = Print string | PrintDict "(string \<times> pyval) list" | Sleep real

definition table_header_str :: string where
  "table_header_str =
     format_str_right 16 [] @ '' '' @ format_str_right 10 ''writeback'' @ '' '' @
     format_str_right 12 ''reclaimable'' @ '' '' @
     format_str_right 9 ''dirtied'' @ '' '' @ format_str_right 9 ''written'' @ '' '' @
     format_str_right 9 ''avg_bw''"

definition dict :: "prog \<Rightarrow> Stats \<Rightarrow> real \<Rightarrow> error + (string \<times> pyval) list" where
  "dict c self now =
     (case getitem (stats self) (WB_WRITEBACK c) of Inl e \<Rightarrow> Inl e | Inr wbk \<Rightarrow>
     (case getitem (stats self) (WB_RECLAIMABLE c) of Inl e \<Rightarrow> Inl e | Inr rcl \<Rightarrow>
     (case getitem (stats self) (WB_DIRTIED c) of Inl e \<Rightarrow> Inl e | Inr dir \<Rightarrow>
     (case getitem (stats self) (WB_WRITTEN c) of Inl e \<Rightarrow> Inl e | Inr wri \<Rightarrow>
        Inr [(''timestamp'', PyFloat now), (''name'', PyStr (name self)),
             (''writeback'', PyInt wbk), (''reclaimable'', PyInt rcl),
             (''dirtied'', PyInt dir), (''written'', PyInt wri),
             (''avg_wb'', PyInt (avg_bw self))]))))"

definition table_row_str :: "prog \<Rightarrow> Stats \<Rightarrow> error + string" where
  "table_row_str c self =
     (case getitem (stats self) (WB_WRITEBACK c) of Inl e \<Rightarrow> Inl e | Inr wbk \<Rightarrow>
     (case getitem (stats self) (WB_RECLAIMABLE c) of Inl e \<Rightarrow> Inl e | Inr rcl \<Rightarrow>
     (case getitem (stats self) (WB_DIRTIED c) of Inl e \<Rightarrow> Inl e | Inr dir \<Rightarrow>
     (case getitem (stats self) (WB_WRITTEN c) of Inl e \<Rightarrow> Inl e | Inr wri \<Rightarrow>
        Inr (format_str 16 (last16 (name self)) @ '' '' @
             format_int 10 wbk @ '' '' @
             format_int 12 rcl @ '' '' @
             format_int 9 dir @ '' '' @
             format_int 9 wri @ '' '' @
             format_int 9 (avg_bw self) @ '' '')))))"

text \<open>
  \<^verbatim>\<open>Stats.table_fmt\<close> and \<^verbatim>\<open>Stats.now\<close> are class attributes set by \<^verbatim>\<open>main\<close>; here
  they are arguments.
\<close>

definition show_header :: "bool \<Rightarrow> event list" where
  "show_header table_fmt = (if table_fmt then [Print [], Print table_header_str] else [])"

definition show_stats :: "bool \<Rightarrow> real \<Rightarrow> prog \<Rightarrow> Stats \<Rightarrow> error + event" where
  "show_stats table_fmt now c self =
     (if table_fmt
      then (case table_row_str c self of Inl e \<Rightarrow> Inl e | Inr row \<Rightarrow> Inr (Print row))
      else (case dict c self now of Inl e \<Rightarrow> Inl e | Inr d \<Rightarrow> Inr (PrintDict d)))"

text \<open>
  The list comprehension of \<^verbatim>\<open>WbStats.__init__\<close>:
  \<^verbatim>\<open>[int(K(wb.stat[i].count)) if wb.stat[i].count >= 0 else 0 for i in range(...)]\<close>.
\<close>

fun wb_stat_items :: "prog \<Rightarrow> (nat \<Rightarrow> 64 word) \<Rightarrow> nat list \<Rightarrow> error + int list" where
  "wb_stat_items c st [] = Inr []"
| "wb_stat_items c st (i # is) =
     (case (if sint (st i) \<ge> 0
            then (case K c (S64 (st i)) of Inl e \<Rightarrow> Inl e | Inr v \<Rightarrow> Inr (py_int v))
            else Inr 0) of
        Inl e \<Rightarrow> Inl e
      | Inr v \<Rightarrow> (case wb_stat_items c st is of Inl e \<Rightarrow> Inl e | Inr vs \<Rightarrow> Inr (v # vs)))"

definition WbStats :: "prog \<Rightarrow> bdi_writeback \<Rightarrow> error + Stats" where
  "WbStats c wb =
     (let bdi_name = dev_name (wb_bdi wb);
          ino = (if wb_address wb = bdi_wb_address (wb_bdi wb) then ''1''
                 else str_int (wb_memcg_id wb))
      in case wb_stat_items c (wb_stat wb) [0..<NR_WB_STAT_ITEMS c] of
           Inl e \<Rightarrow> Inl e
         | Inr st \<Rightarrow>
             (case K c (U64 (wb_avg_write_bandwidth wb)) of
                Inl e \<Rightarrow> Inl e
              | Inr bw \<Rightarrow>
                  Inr \<lparr>name = bdi_name @ ''_'' @ ino, stats = st, avg_bw = py_int bw\<rparr>))"

definition BdiStats :: "prog \<Rightarrow> 'a bdi_core_scheme \<Rightarrow> Stats" where
  "BdiStats c bdi =
     \<lparr>name = dev_name bdi, stats = replicate (NR_WB_STAT_ITEMS c) 0, avg_bw = 0\<rparr>"

section \<open>Accumulation\<close>

text \<open>
  \<^verbatim>\<open>collectStats\<close> updates the object \<^verbatim>\<open>self\<close> in place and reads the object
  \<^verbatim>\<open>wb_stats\<close>. Objects live in a store, and the two arguments are references into
  it, so that the model says what happens to each object, also when both references name
  the same one.
\<close>

type_synonym ref = nat
type_synonym heap = "ref \<Rightarrow> Stats"

text \<open>The loop \<^verbatim>\<open>for i in range(NR_WB_STAT_ITEMS): self.stats[i] += wb_stats.stats[i]\<close>.\<close>

fun collect_items :: "nat list \<Rightarrow> heap \<Rightarrow> ref \<Rightarrow> ref \<Rightarrow> error + heap" where
  "collect_items [] h self wb_stats = Inr h"
| "collect_items (i # is) h self wb_stats =
     (if i < length (stats (h self)) \<and> i < length (stats (h wb_stats))
      then collect_items is
             (h(self := (h self)\<lparr>stats :=
                  (stats (h self))[i := stats (h self) ! i + stats (h wb_stats) ! i]\<rparr>))
             self wb_stats
      else Inl IndexError)"

definition collectStats :: "prog \<Rightarrow> heap \<Rightarrow> ref \<Rightarrow> ref \<Rightarrow> error + heap" where
  "collectStats c h self wb_stats =
     (case collect_items [0..<NR_WB_STAT_ITEMS c] h self wb_stats of
        Inl e \<Rightarrow> Inl e
      | Inr h' \<Rightarrow>
          Inr (h'(self := (h' self)\<lparr>avg_bw := avg_bw (h' self) + avg_bw (h' wb_stats)\<rparr>)))"

section \<open>The name filter\<close>

text \<open>
  Python's \<^verbatim>\<open>re\<close> module is a library outside the script. It is a parameter of the
  model: \<open>re_compile\<close> is \<^verbatim>\<open>re.compile\<close> (\<open>None\<close> when it raises \<^verbatim>\<open>re.error\<close>),
  \<open>re_search rx s\<close> says whether \<^verbatim>\<open>rx.search(s)\<close> finds a match.

  \<^verbatim>\<open>re_str = '|'.join(args.bdi) if args.bdi else None\<close>
  \<^verbatim>\<open>filter_re = re.compile(re_str) if re_str else None\<close>
  An empty list and an empty string are both false in Python.
\<close>

definition re_str :: "args \<Rightarrow> string option" where
  "re_str a = (if args_bdi a \<noteq> [] then Some (join ''|'' (args_bdi a)) else None)"

definition filter_re :: "(string \<Rightarrow> 'rx option) \<Rightarrow> args \<Rightarrow> error + 'rx option" where
  "filter_re re_compile a =
     (case re_str a of
        None \<Rightarrow> Inr None
      | Some s \<Rightarrow>
          (if s \<noteq> []
           then (case re_compile s of None \<Rightarrow> Inl ReError | Some rx \<Rightarrow> Inr (Some rx))
           else Inr None))"

text \<open>The test \<^verbatim>\<open>filter_re and not filter_re.search(bdi_stats.name)\<close> of the device loop.\<close>

definition skipped :: "('rx \<Rightarrow> string \<Rightarrow> bool) \<Rightarrow> 'rx option \<Rightarrow> string \<Rightarrow> bool" where
  "skipped re_search f n = (case f of None \<Rightarrow> False | Some rx \<Rightarrow> \<not> re_search rx n)"

section \<open>The monitoring loop\<close>

text \<open>
  The local variables \<^verbatim>\<open>bdi_stats\<close> and \<^verbatim>\<open>wb_stats\<close> of \<^verbatim>\<open>main\<close> are two cells of
  the store; each assignment binds a new object to its cell.
\<close>

definition bdi_stats :: ref where
  "bdi_stats = 0"

definition wb_stats :: ref where
  "wb_stats = 1"

definition table_fmt :: "args \<Rightarrow> bool" where
  "table_fmt a = (\<not> args_json a)"

text \<open>
  The inner loop, over the writeback structures of one device. The result is what was
  printed, and the store reached or the exception that ended the run.
\<close>

fun wb_loop :: "prog \<Rightarrow> args \<Rightarrow> real \<Rightarrow> heap \<Rightarrow> bdi_writeback list \<Rightarrow> event list \<times> (error + heap)"
  where
  "wb_loop c a now h [] = ([], Inr h)"
| "wb_loop c a now h (wb # wbs) =
     (case WbStats c wb of
        Inl e \<Rightarrow> ([], Inl e)
      | Inr s \<Rightarrow>
          (case collectStats c (h(wb_stats := s)) bdi_stats wb_stats of
             Inl e \<Rightarrow> ([], Inl e)
           | Inr h' \<Rightarrow>
               (if args_cgroup a
                then (case show_stats (table_fmt a) now c (h' wb_stats) of
                        Inl e \<Rightarrow> ([], Inl e)
                      | Inr ev \<Rightarrow>
                          (case wb_loop c a now h' wbs of (tr, r) \<Rightarrow> (ev # tr, r)))
                else wb_loop c a now h' wbs)))"

text \<open>The body of the outer loop, for one device.\<close>

definition bdi_body ::
  "('rx \<Rightarrow> string \<Rightarrow> bool) \<Rightarrow> prog \<Rightarrow> args \<Rightarrow> 'rx option \<Rightarrow> real \<Rightarrow> heap \<Rightarrow> backing_dev_info
     \<Rightarrow> event list \<times> (error + heap)" where
  "bdi_body re_search c a f now h bdi =
     (let h1 = h(bdi_stats := BdiStats c bdi) in
      if skipped re_search f (name (h1 bdi_stats)) then ([], Inr h1)
      else
        (case wb_loop c a now h1 (wb_list bdi) of
           (tr, Inl e) \<Rightarrow> (tr, Inl e)
         | (tr, Inr h2) \<Rightarrow>
             (case show_stats (table_fmt a) now c (h2 bdi_stats) of
                Inl e \<Rightarrow> (tr, Inl e)
              | Inr ev \<Rightarrow>
                  (tr @ [ev] @ (if args_cgroup a \<and> table_fmt a then [Print []] else []),
                   Inr h2))))"

fun bdi_loop ::
  "('rx \<Rightarrow> string \<Rightarrow> bool) \<Rightarrow> prog \<Rightarrow> args \<Rightarrow> 'rx option \<Rightarrow> real \<Rightarrow> heap
     \<Rightarrow> backing_dev_info list \<Rightarrow> event list \<times> (error + heap)" where
  "bdi_loop re_search c a f now h [] = ([], Inr h)"
| "bdi_loop re_search c a f now h (bdi # bdis) =
     (case bdi_body re_search c a f now h bdi of
        (tr, Inl e) \<Rightarrow> (tr, Inl e)
      | (tr, Inr h') \<Rightarrow>
          (case bdi_loop re_search c a f now h' bdis of (tr', r) \<Rightarrow> (tr @ tr', r)))"

text \<open>
  What one pass of the \<^verbatim>\<open>while\<close> loop meets: the clock (\<^verbatim>\<open>time.time()\<close>), the devices
  \<^verbatim>\<open>list_for_each_entry\<close> enumerates, and whether SIGINT arrives while the body of the
  loop runs and while \<^verbatim>\<open>time.sleep\<close> does. The handler only sets \<^verbatim>\<open>exit_req\<close>.
\<close>

record world =
  time_time :: real
  bdi_list :: "backing_dev_info list"
  sigint_in_pass :: bool
  sigint_in_sleep :: bool

text \<open>One pass: the statements of the loop body before \<^verbatim>\<open>if interval == 0\<close>.\<close>

definition pass ::
  "('rx \<Rightarrow> string \<Rightarrow> bool) \<Rightarrow> prog \<Rightarrow> args \<Rightarrow> 'rx option \<Rightarrow> heap \<Rightarrow> world
     \<Rightarrow> event list \<times> (error + heap)" where
  "pass re_search c a f h w =
     (case bdi_loop re_search c a f (time_time w) h (bdi_list w) of
        (tr, r) \<Rightarrow> (show_header (table_fmt a) @ tr, r))"

text \<open>
  \<^verbatim>\<open>time.sleep(secs)\<close> first converts the seconds to a signed 64-bit count of
  nanoseconds, rounded away from zero, and raises OverflowError when that does not fit;
  then it raises ValueError for a negative count. The product of the float by \<open>10\<^sup>9\<close> is
  taken as exact here.
\<close>

definition time_sleep :: "real \<Rightarrow> error + event" where
  "time_sleep secs =
     (if secs * 1000000000 < - (2 ^ 63) \<or> 2 ^ 63 - 1 < secs * 1000000000
      then Inl OverflowError
      else if secs < 0 then Inl ValueError
      else Inr (Sleep secs))"

text \<open>
  How a run ends: \<^verbatim>\<open>main\<close> returns, an exception ends it, or the list of worlds is
  used up while the loop is still running.
\<close>

datatype outcome = Returned | Raised error | Running

fun monitor_loop ::
  "('rx \<Rightarrow> string \<Rightarrow> bool) \<Rightarrow> prog \<Rightarrow> args \<Rightarrow> 'rx option \<Rightarrow> bool \<Rightarrow> heap \<Rightarrow> world list
     \<Rightarrow> event list \<times> outcome" where
  "monitor_loop re_search c a f exit_req h [] =
     (if exit_req then ([], Returned) else ([], Running))"
| "monitor_loop re_search c a f exit_req h (w # ws) =
     (if exit_req then ([], Returned)
      else
        (case pass re_search c a f h w of
           (tr, Inl e) \<Rightarrow> (tr, Raised e)
         | (tr, Inr h') \<Rightarrow>
             (if args_interval a = 0 then (tr, Returned)
              else
                (case time_sleep (args_interval a) of
                   Inl e \<Rightarrow> (tr, Raised e)
                 | Inr ev \<Rightarrow>
                     (case monitor_loop re_search c a f
                             (sigint_in_pass w \<or> sigint_in_sleep w) h' ws of
                        (tr', r) \<Rightarrow> (tr @ ev # tr', r))))))"

text \<open>
  \<^verbatim>\<open>main\<close>: the filter is compiled first, then the handler is registered. The global
  \<^verbatim>\<open>exit_req\<close> is \<^verbatim>\<open>False\<close> when the module is loaded; \<open>sigint_before_loop\<close> says
  whether SIGINT arrives after the handler is registered and before the first test of
  the \<^verbatim>\<open>while\<close> loop, which then finds \<^verbatim>\<open>exit_req\<close> set. No object is bound yet.
\<close>

definition no_object :: Stats where
  "no_object = \<lparr>name = [], stats = [], avg_bw = 0\<rparr>"

definition main ::
  "(string \<Rightarrow> 'rx option) \<Rightarrow> ('rx \<Rightarrow> string \<Rightarrow> bool) \<Rightarrow> prog \<Rightarrow> args \<Rightarrow> bool \<Rightarrow> world list
     \<Rightarrow> event list \<times> outcome" where
  "main re_compile re_search c a sigint_before_loop ws =
     (case filter_re re_compile a of
        Inl e \<Rightarrow> ([], Raised e)
      | Inr f \<Rightarrow> monitor_loop re_search c a f sigint_before_loop (\<lambda>r. no_object) ws)"

section \<open>Assumptions on the kernel constants, and example data\<close>

text \<open>
  The kernel a run looks at has pages of at least 1 KiB, and its four counter indices lie
  below \<open>NR_WB_STAT_ITEMS\<close>. Under these assumptions no call of \<open>K\<close> and no index into
  a list of counters raises.
\<close>

definition prog_ok :: "prog \<Rightarrow> bool" where
  "prog_ok c =
     (10 \<le> PAGE_SHIFT c \<and> WB_RECLAIMABLE c < NR_WB_STAT_ITEMS c \<and>
      WB_WRITEBACK c < NR_WB_STAT_ITEMS c \<and> WB_DIRTIED c < NR_WB_STAT_ITEMS c \<and>
      WB_WRITTEN c < NR_WB_STAT_ITEMS c)"

text \<open>
  A kernel with 4 KiB pages, and one device \<^verbatim>\<open>bdi0\<close> with its own writeback structure
  and one that belongs to the cgroup 42, the latter with a negative counter. Then a
  writeback structure whose counters are \<open>2\<^sup>6\<^sup>1\<close> pages and whose bandwidth has all bits
  but the lowest set.
\<close>

definition example_prog :: prog where
  "example_prog =
     \<lparr>WB_RECLAIMABLE = 0, WB_WRITEBACK = 1, WB_DIRTIED = 2, WB_WRITTEN = 3,
      NR_WB_STAT_ITEMS = 4, PAGE_SHIFT = 12\<rparr>"

definition example_wb :: bdi_writeback where
  "example_wb =
     \<lparr>wb_address = 100, wb_bdi = \<lparr>dev_name = ''bdi0'', bdi_wb_address = 100\<rparr>,
      wb_memcg_id = 1, wb_stat = (\<lambda>i. [10, 5, 20, 15] ! i), wb_avg_write_bandwidth = 0\<rparr>"

definition example_cgwb :: bdi_writeback where
  "example_cgwb =
     \<lparr>wb_address = 200, wb_bdi = \<lparr>dev_name = ''bdi0'', bdi_wb_address = 100\<rparr>,
      wb_memcg_id = 42, wb_stat = (\<lambda>i. [2, - 1, 4, 3] ! i), wb_avg_write_bandwidth = 3\<rparr>"

definition example_bigwb :: bdi_writeback where
  "example_bigwb =
     \<lparr>wb_address = 100, wb_bdi = \<lparr>dev_name = ''bdi0'', bdi_wb_address = 100\<rparr>,
      wb_memcg_id = 1, wb_stat = (\<lambda>i. 2305843009213693952), wb_avg_write_bandwidth = - 2\<rparr>"

definition example_bdi :: backing_dev_info where
  "example_bdi = \<lparr>dev_name = ''bdi0'', bdi_wb_address = 100, wb_list = [example_wb, example_cgwb]\<rparr>"

definition example_heap :: heap where
  "example_heap =
     (\<lambda>r. no_object)
       (bdi_stats := \<lparr>name = ''bdi0'', stats = [40, 20, 80, 60], avg_bw = 0\<rparr>,
        wb_stats := \<lparr>name = ''bdi0_42'', stats = [8, 0, 16, 12], avg_bw = - 8\<rparr>)"

definition example_args :: args where
  "example_args = \<lparr>args_bdi = [], args_interval = 1, args_json = False, args_cgroup = True\<rparr>"

text \<open>
  Two instances of the \<^verbatim>\<open>re\<close> parameters, for patterns of a small fragment.
  For a pattern made of letters, digits, \<^verbatim>\<open>^\<close>, \<^verbatim>\<open>|\<close> and parentheses,
  \<^verbatim>\<open>re.compile\<close> raises exactly when the parentheses do not balance
  (\<^verbatim>\<open>missing ), unterminated subpattern\<close> or \<^verbatim>\<open>unbalanced parenthesis\<close>).
  For a pattern that is empty, or a string of letters and digits with or without a leading
  \<^verbatim>\<open>^\<close>, \<^verbatim>\<open>search\<close> finds a match exactly when the string occurs in the subject, at its
  start when anchored.
\<close>

fun balanced :: "nat \<Rightarrow> string \<Rightarrow> bool" where
  "balanced d [] = (d = 0)"
| "balanced d (x # xs) =
     (if x = CHR ''('' then balanced (Suc d) xs
      else if x = CHR '')'' then 0 < d \<and> balanced (d - 1) xs
      else balanced d xs)"

definition re_compile_parens :: "string \<Rightarrow> string option" where
  "re_compile_parens s = (if balanced 0 s then Some s else None)"

definition re_search_literal :: "string \<Rightarrow> string \<Rightarrow> bool" where
  "re_search_literal rx s =
     (case rx of
        [] \<Rightarrow> True
      | x # p \<Rightarrow>
          if x = CHR ''^'' then take (length p) s = p
          else list_ex (\<lambda>i. take (length rx) (drop i s) = rx) [0..<Suc (length s)])"

text \<open>
  What the specification asks of one pass, in terms of the sampler \<open>WbStats\<close> and the
  renderer \<open>show_stats\<close>. For one device the events \<open>t\<close> are the renderings, in order, of
  the samples of all its queues when \<^verbatim>\<open>--cgroup\<close> is set, then of the device total, the
  element-wise sum of those samples. A full pass prints the header, and then for every
  device the filter does not skip, in the order of enumeration, these events followed by
  the blank line of the table with \<^verbatim>\<open>--cgroup\<close>.
\<close>

definition spec_device_report :: "prog \<Rightarrow> args \<Rightarrow> real \<Rightarrow> backing_dev_info \<Rightarrow> event list \<Rightarrow> bool"
  where
  "spec_device_report c a now bdi t =
     (\<exists>qs. map (WbStats c) (wb_list bdi) = map Inr qs \<and>
        map (show_stats (table_fmt a) now c)
          ((if args_cgroup a then qs else []) @
           [\<lparr>name = dev_name bdi,
             stats = map (\<lambda>i. sum_list (map (\<lambda>q. stats q ! i) qs)) [0..<NR_WB_STAT_ITEMS c],
             avg_bw = sum_list (map avg_bw qs)\<rparr>]) = map Inr t)"

definition spec_full_pass ::
  "('rx \<Rightarrow> string \<Rightarrow> bool) \<Rightarrow> prog \<Rightarrow> args \<Rightarrow> 'rx option \<Rightarrow> world \<Rightarrow> event list \<Rightarrow> bool" where
  "spec_full_pass re_search c a f w tr =
     (\<exists>ts. list_all2 (spec_device_report c a (time_time w))
              (filter (\<lambda>bdi. \<not> skipped re_search f (dev_name bdi)) (bdi_list w)) ts \<and>
        tr = (if table_fmt a then [Print [], Print table_header_str] else []) @
             concat (map (\<lambda>t. t @ (if args_cgroup a \<and> table_fmt a then [Print []] else [])) ts))"

section \<open>Unit conversion and queue samples\<close>

lemma sint_push_bit_exact:
  fixes w :: "64 word"
  assumes "0 \<le> sint w" and "sint w * 2 ^ n < 2 ^ 63"
  shows "sint (push_bit n w) = sint w * 2 ^ n"
proof -
  have a: "sint (push_bit n w) = signed_take_bit 63 (push_bit n (sint w))"
    by (simp add: signed_push_bit_eq)
  have b: "push_bit n (sint w) = sint w * 2 ^ n"
    by (rule push_bit_eq_mult)
  have "0 \<le> sint w * 2 ^ n"
    using assms(1) by simp
  then have c: "signed_take_bit 63 (sint w * 2 ^ n) = sint w * 2 ^ n"
    using assms(2) by (intro signed_take_bit_int_eq_self) simp_all
  show ?thesis
    unfolding a b c ..
qed

lemma uint_push_bit_exact:
  fixes w :: "64 word"
  assumes "uint w * 2 ^ n < 2 ^ 64"
  shows "uint (push_bit n w) = uint w * 2 ^ n"
proof -
  have a: "uint (push_bit n w) = take_bit 64 (push_bit n (uint w))"
    by (simp add: unsigned_push_bit_eq)
  have b: "push_bit n (uint w) = uint w * 2 ^ n"
    by (rule push_bit_eq_mult)
  have c: "take_bit 64 (uint w * 2 ^ n) = uint w * 2 ^ n"
    using assms by (intro take_bit_int_eq_self) simp_all
  show ?thesis
    unfolding a b c ..
qed

lemma K_shift:
  "10 \<le> PAGE_SHIFT c \<Longrightarrow>
   K c x = Inr (case x of
                  S64 w \<Rightarrow> S64 (push_bit (nat (PAGE_SHIFT c - 10)) w)
                | U64 w \<Rightarrow> U64 (push_bit (nat (PAGE_SHIFT c - 10)) w))"
  by (simp add: K_def)

lemma wb_stat_items_shift:
  "10 \<le> PAGE_SHIFT c \<Longrightarrow>
   wb_stat_items c st is =
     Inr (map (\<lambda>i. if 0 \<le> sint (st i) then sint (push_bit (nat (PAGE_SHIFT c - 10)) (st i))
                     else 0) is)"
  by (induction "is") (simp_all add: K_shift py_int_def)

lemma WbStats_shift:
  "10 \<le> PAGE_SHIFT c \<Longrightarrow>
   WbStats c wb =
     Inr \<lparr>name = dev_name (wb_bdi wb) @ ''_'' @
              (if wb_address wb = bdi_wb_address (wb_bdi wb) then ''1''
               else str_int (wb_memcg_id wb)),
          stats = map (\<lambda>i. if 0 \<le> sint (wb_stat wb i)
                            then sint (push_bit (nat (PAGE_SHIFT c - 10)) (wb_stat wb i)) else 0)
                    [0..<NR_WB_STAT_ITEMS c],
          avg_bw = uint (push_bit (nat (PAGE_SHIFT c - 10)) (wb_avg_write_bandwidth wb))\<rparr>"
  by (simp add: WbStats_def wb_stat_items_shift K_shift Let_def py_int_def)

lemma WbStats_length:
  assumes "WbStats c wb = Inr s"
  shows "length (stats s) = NR_WB_STAT_ITEMS c"
proof -
  have len: "wb_stat_items c st is = Inr vs \<Longrightarrow> length vs = length is" for st "is" vs
    by (induction "is" arbitrary: vs) (auto split: sum.splits if_splits)
  from assms show ?thesis
    by (auto simp: WbStats_def Let_def split: sum.splits dest: len)
qed

lemma example_page_shift: "10 \<le> PAGE_SHIFT example_prog"
  by (simp add: example_prog_def)

lemma WbStats_example_wb:
  "WbStats example_prog example_wb =
     Inr \<lparr>name = ''bdi0_1'', stats = [40, 20, 80, 60], avg_bw = 0\<rparr>"
  by (simp add: WbStats_shift [OF example_page_shift])
    (simp add: example_prog_def example_wb_def upt_rec)

lemma WbStats_example_cgwb:
  "WbStats example_prog example_cgwb =
     Inr \<lparr>name = ''bdi0_42'', stats = [8, 0, 16, 12], avg_bw = 12\<rparr>"
  by (simp add: WbStats_shift [OF example_page_shift])
    (simp add: example_prog_def example_cgwb_def str_int_def str_nat.simps digit_char_def
      upt_rec)

lemma WbStats_example_bigwb:
  "WbStats example_prog example_bigwb =
     Inr \<lparr>name = ''bdi0_1'',
          stats = [- 9223372036854775808, - 9223372036854775808, - 9223372036854775808,
                   - 9223372036854775808],
          avg_bw = 18446744073709551608\<rparr>"
  by (simp add: WbStats_shift [OF example_page_shift])
    (simp add: example_prog_def example_bigwb_def upt_rec)

text \<open>
  C2, as amended. For every raw counter \<open>wb_stat wb i\<close>, a signed 64-bit value, and every
  page shift of at least 10, the counter of the queue sample is 0 when the raw value is
  negative (the test on the sign comes before the conversion), and otherwise the raw
  value shifted left by \<open>PAGE_SHIFT - 10\<close> and cut to a signed 64-bit value: it is the
  raw value times \<open>2 ^ (PAGE_SHIFT - 10)\<close> whenever that product is below \<open>2\<^sup>6\<^sup>3\<close>. The
  sample has one counter per index below \<open>NR_WB_STAT_ITEMS\<close>.
\<close>

theorem queue_counter_conversion:
  assumes "10 \<le> PAGE_SHIFT c"
  shows "\<exists>s. WbStats c wb = Inr s \<and> length (stats s) = NR_WB_STAT_ITEMS c \<and>
     (\<forall>i<NR_WB_STAT_ITEMS c.
        stats s ! i =
          (if 0 \<le> sint (wb_stat wb i)
           then sint (push_bit (nat (PAGE_SHIFT c - 10)) (wb_stat wb i)) else 0) \<and>
        (0 \<le> sint (wb_stat wb i) \<and>
         sint (wb_stat wb i) * 2 ^ nat (PAGE_SHIFT c - 10) < 2 ^ 63 \<longrightarrow>
           stats s ! i = sint (wb_stat wb i) * 2 ^ nat (PAGE_SHIFT c - 10)))"
  using assms by (simp add: WbStats_shift sint_push_bit_exact)

theorem queue_counter_conversion_witness:
  "10 \<le> PAGE_SHIFT example_prog \<and>
   0 \<le> sint (wb_stat example_cgwb 0) \<and>
   sint (wb_stat example_cgwb 0) * 2 ^ nat (PAGE_SHIFT example_prog - 10) < 2 ^ 63 \<and>
   \<not> 0 \<le> sint (wb_stat example_cgwb 1) \<and>
   (\<exists>s. WbStats example_prog example_cgwb = Inr s \<and> stats s = [8, 0, 16, 12])"
proof -
  have ps: "10 \<le> PAGE_SHIFT example_prog"
    by (simp add: example_prog_def)
  have pos: "0 \<le> sint (wb_stat example_cgwb 0)"
    and fit: "sint (wb_stat example_cgwb 0) * 2 ^ nat (PAGE_SHIFT example_prog - 10) < 2 ^ 63"
    and neg: "\<not> 0 \<le> sint (wb_stat example_cgwb 1)"
    by (simp_all add: example_cgwb_def example_prog_def)
  from queue_counter_conversion [OF ps, of example_cgwb]
  obtain s where s: "WbStats example_prog example_cgwb = Inr s"
    and len: "length (stats s) = NR_WB_STAT_ITEMS example_prog"
    and it: "\<forall>i<NR_WB_STAT_ITEMS example_prog.
        stats s ! i =
          (if 0 \<le> sint (wb_stat example_cgwb i)
           then sint (push_bit (nat (PAGE_SHIFT example_prog - 10)) (wb_stat example_cgwb i))
           else 0)"
    by blast
  have "stats s = [8, 0, 16, 12]"
  proof (rule nth_equalityI)
    show "length (stats s) = length [8, 0, 16, 12 :: int]"
      using len by (simp add: example_prog_def)
  next
    fix i assume "i < length (stats s)"
    then have "i < 4" using len by (simp add: example_prog_def)
    then have "i = 0 \<or> i = 1 \<or> i = 2 \<or> i = 3" by arith
    then show "stats s ! i = [8, 0, 16, 12] ! i"
      using it by (auto simp: example_prog_def example_cgwb_def)
  qed
  with ps pos fit neg s show ?thesis by blast
qed

text \<open>
  The claim C2 as stated fails: a raw counter of \<open>2\<^sup>6\<^sup>1\<close> pages is not negative, and at
  page shift 12 its shift by 2 is \<open>2\<^sup>6\<^sup>3\<close>; the sample holds \<open>- 2\<^sup>6\<^sup>3\<close>.
\<close>

theorem queue_counter_wraps_counterexample:
  "10 \<le> PAGE_SHIFT example_prog \<and> 0 \<le> sint (wb_stat example_bigwb 0) \<and>
   WbStats example_prog example_bigwb =
     Inr \<lparr>name = ''bdi0_1'',
          stats = [- 9223372036854775808, - 9223372036854775808, - 9223372036854775808,
                   - 9223372036854775808],
          avg_bw = 18446744073709551608\<rparr> \<and>
   sint (wb_stat example_bigwb 0) * 2 ^ nat (PAGE_SHIFT example_prog - 10) =
     9223372036854775808 \<and>
   [- 9223372036854775808, - 9223372036854775808, - 9223372036854775808,
    - 9223372036854775808 :: int] ! 0 \<noteq>
     sint (wb_stat example_bigwb 0) * 2 ^ nat (PAGE_SHIFT example_prog - 10)"
  by (simp add: WbStats_example_bigwb) (simp add: example_prog_def example_bigwb_def)

text \<open>
  C3, as amended. Only the four counters are clamped. The raw average bandwidth is an
  unsigned 64-bit value; the bandwidth of the queue sample is that value shifted left by
  \<open>PAGE_SHIFT - 10\<close> and cut to 64 bits, with no test on it: it is never negative, it is
  the raw value times \<open>2 ^ (PAGE_SHIFT - 10)\<close> whenever that product is below \<open>2\<^sup>6\<^sup>4\<close>,
  and it is 0 only when the shifted value is 0; a raw counter that is negative gives 0.
\<close>

theorem bandwidth_not_clamped:
  assumes "10 \<le> PAGE_SHIFT c"
  shows "\<exists>s. WbStats c wb = Inr s \<and>
     avg_bw s = uint (push_bit (nat (PAGE_SHIFT c - 10)) (wb_avg_write_bandwidth wb)) \<and>
     0 \<le> avg_bw s \<and> avg_bw s < 2 ^ 64 \<and>
     (avg_bw s = 0) = (push_bit (nat (PAGE_SHIFT c - 10)) (wb_avg_write_bandwidth wb) = 0) \<and>
     (uint (wb_avg_write_bandwidth wb) * 2 ^ nat (PAGE_SHIFT c - 10) < 2 ^ 64 \<longrightarrow>
        avg_bw s = uint (wb_avg_write_bandwidth wb) * 2 ^ nat (PAGE_SHIFT c - 10)) \<and>
     (\<forall>i<NR_WB_STAT_ITEMS c. sint (wb_stat wb i) < 0 \<longrightarrow> stats s ! i = 0)"
proof -
  let ?bw = "push_bit (nat (PAGE_SHIFT c - 10)) (wb_avg_write_bandwidth wb)"
  have lt: "uint ?bw < 2 ^ 64"
    using uint_lt2p [of ?bw] by simp
  have z: "(uint ?bw = 0) = (?bw = 0)"
    by (simp add: uint_0_iff)
  show ?thesis
    using assms lt z by (simp add: WbStats_shift uint_push_bit_exact)
qed

theorem bandwidth_not_clamped_witness:
  "10 \<le> PAGE_SHIFT example_prog \<and>
   uint (wb_avg_write_bandwidth example_cgwb) * 2 ^ nat (PAGE_SHIFT example_prog - 10) < 2 ^ 64 \<and>
   1 < NR_WB_STAT_ITEMS example_prog \<and> sint (wb_stat example_cgwb 1) < 0 \<and>
   (\<exists>s. WbStats example_prog example_cgwb = Inr s \<and> avg_bw s = 12 \<and> stats s ! 1 = 0)"
proof -
  have ps: "10 \<le> PAGE_SHIFT example_prog"
    by (simp add: example_prog_def)
  have ix: "1 < NR_WB_STAT_ITEMS example_prog"
    by (simp add: example_prog_def)
  have neg: "sint (wb_stat example_cgwb 1) < 0"
    by (simp add: example_cgwb_def)
  have fit: "uint (wb_avg_write_bandwidth example_cgwb) * 2 ^ nat (PAGE_SHIFT example_prog - 10)
      < 2 ^ 64"
    by (simp add: example_cgwb_def example_prog_def)
  from bandwidth_not_clamped [OF ps, of example_cgwb]
  obtain s where s: "WbStats example_prog example_cgwb = Inr s"
    and bw: "uint (wb_avg_write_bandwidth example_cgwb) * 2 ^ nat (PAGE_SHIFT example_prog - 10)
        < 2 ^ 64 \<longrightarrow>
      avg_bw s =
        uint (wb_avg_write_bandwidth example_cgwb) * 2 ^ nat (PAGE_SHIFT example_prog - 10)"
    and cl: "\<forall>i<NR_WB_STAT_ITEMS example_prog. sint (wb_stat example_cgwb i) < 0 \<longrightarrow> stats s ! i = 0"
    by blast
  from bw fit have "avg_bw s =
      uint (wb_avg_write_bandwidth example_cgwb) * 2 ^ nat (PAGE_SHIFT example_prog - 10)"
    by blast
  then have "avg_bw s = 12"
    by (simp add: example_cgwb_def example_prog_def)
  moreover from cl ix neg have "stats s ! 1 = 0" by blast
  ultimately show ?thesis using ps ix neg fit s by blast
qed

text \<open>
  The claim C3 as stated fails: no raw bandwidth is negative, and none is reported as
  negative. The 64 bits that would be \<open>- 2\<close> in a signed field are the unsigned value
  \<open>2\<^sup>6\<^sup>4 - 2\<close>, and the sample holds \<open>2\<^sup>6\<^sup>4 - 8\<close>, not \<open>- 8\<close>.
\<close>

theorem negative_bandwidth_counterexample:
  "10 \<le> PAGE_SHIFT example_prog \<and> sint (wb_avg_write_bandwidth example_bigwb) = - 2 \<and>
   uint (wb_avg_write_bandwidth example_bigwb) = 18446744073709551614 \<and>
   WbStats example_prog example_bigwb =
     Inr \<lparr>name = ''bdi0_1'',
          stats = [- 9223372036854775808, - 9223372036854775808, - 9223372036854775808,
                   - 9223372036854775808],
          avg_bw = 18446744073709551608\<rparr> \<and>
   \<not> (18446744073709551608 :: int) < 0"
  by (simp add: WbStats_example_bigwb) (simp add: example_prog_def example_bigwb_def)

text \<open>
  C5. The name of every queue sample is the name of the device the writeback structure
  points to, an underscore, and an owner id: the string \<^verbatim>\<open>1\<close> when the address of the
  structure is the address of the one embedded in that device, and the decimal cgroup
  id otherwise.
\<close>

theorem queue_sample_name:
  assumes "WbStats c wb = Inr s"
  shows "name s = dev_name (wb_bdi wb) @ ''_'' @
     (if wb_address wb = bdi_wb_address (wb_bdi wb) then ''1'' else str_int (wb_memcg_id wb))"
  using assms by (auto simp: WbStats_def Let_def split: sum.splits)

theorem queue_sample_name_witness:
  "WbStats example_prog example_cgwb =
     Inr \<lparr>name = ''bdi0_42'', stats = [8, 0, 16, 12], avg_bw = 12\<rparr> \<and>
   name \<lparr>name = ''bdi0_42'', stats = [8, 0, 16, 12], avg_bw = 12\<rparr> =
     dev_name (wb_bdi example_cgwb) @ ''_'' @
     (if wb_address example_cgwb = bdi_wb_address (wb_bdi example_cgwb) then ''1''
      else str_int (wb_memcg_id example_cgwb))"
  using queue_sample_name [OF WbStats_example_cgwb] WbStats_example_cgwb
  by (rule conjI [rotated])

section \<open>Accumulation in the store\<close>

lemma collect_items_frame:
  "collect_items is h self other = Inr h' \<Longrightarrow>
   (\<forall>r. r \<noteq> self \<longrightarrow> h' r = h r) \<and> name (h' self) = name (h self) \<and>
   avg_bw (h' self) = avg_bw (h self)"
proof (induction "is" arbitrary: h)
  case Nil
  then show ?case by simp
next
  case (Cons i "is")
  then show ?case
    by (fastforce split: if_splits)
qed

lemma collect_items_upt:
  assumes "self \<noteq> other"
  shows "n \<le> length (stats (h self)) \<Longrightarrow> n \<le> length (stats (h other)) \<Longrightarrow> k \<le> n \<Longrightarrow>
     collect_items [k..<n] h self other =
       Inr (h(self := (h self)\<lparr>stats :=
              map (\<lambda>i. if k \<le> i \<and> i < n then stats (h self) ! i + stats (h other) ! i
                        else stats (h self) ! i) [0..<length (stats (h self))]\<rparr>))"
proof (induction "n - k" arbitrary: k h)
  case 0
  then have "k = n" by simp
  then have "map (\<lambda>i. if k \<le> i \<and> i < n then stats (h self) ! i + stats (h other) ! i
                        else stats (h self) ! i) [0..<length (stats (h self))] = stats (h self)"
    by (intro nth_equalityI) auto
  then show ?case using \<open>k = n\<close> by simp
next
  case (Suc d)
  then have kn: "k < n" by simp
  let ?h1 = "h(self := (h self)\<lparr>stats :=
      (stats (h self))[k := stats (h self) ! k + stats (h other) ! k]\<rparr>)"
  have step: "collect_items [k..<n] h self other = collect_items [Suc k..<n] ?h1 self other"
    using kn Suc.prems by (simp add: upt_conv_Cons)
  have ih: "collect_items [Suc k..<n] ?h1 self other =
     Inr (?h1(self := (?h1 self)\<lparr>stats :=
              map (\<lambda>i. if Suc k \<le> i \<and> i < n then stats (?h1 self) ! i + stats (?h1 other) ! i
                        else stats (?h1 self) ! i) [0..<length (stats (?h1 self))]\<rparr>))"
    using Suc.hyps(2) Suc.prems kn assms by (intro Suc.hyps(1)) auto
  have lists: "map (\<lambda>i. if Suc k \<le> i \<and> i < n then stats (?h1 self) ! i + stats (?h1 other) ! i
                        else stats (?h1 self) ! i) [0..<length (stats (?h1 self))] =
       map (\<lambda>i. if k \<le> i \<and> i < n then stats (h self) ! i + stats (h other) ! i
                        else stats (h self) ! i) [0..<length (stats (h self))]"
  proof (rule map_cong [OF _ _])
    show "[0..<length (stats (?h1 self))] = [0..<length (stats (h self))]" by simp
  next
    fix i assume "i \<in> set [0..<length (stats (h self))]"
    then have i: "i < length (stats (h self))" by simp
    have "i = k \<or> i < k \<or> Suc k \<le> i" by arith
    then show "(if Suc k \<le> i \<and> i < n then stats (?h1 self) ! i + stats (?h1 other) ! i
                        else stats (?h1 self) ! i) =
       (if k \<le> i \<and> i < n then stats (h self) ! i + stats (h other) ! i
                        else stats (h self) ! i)"
      using assms kn i by (auto simp: nth_list_update)
  qed
  show ?case
    unfolding step ih lists by simp
qed

lemma collectStats_sum:
  assumes "self \<noteq> other"
    and "length (stats (h self)) = NR_WB_STAT_ITEMS c"
    and "length (stats (h other)) = NR_WB_STAT_ITEMS c"
  shows "collectStats c h self other =
     Inr (h(self := (h self)\<lparr>
            stats := map (\<lambda>i. stats (h self) ! i + stats (h other) ! i) [0..<NR_WB_STAT_ITEMS c],
            avg_bw := avg_bw (h self) + avg_bw (h other)\<rparr>))"
proof -
  have "collect_items [0..<NR_WB_STAT_ITEMS c] h self other =
       Inr (h(self := (h self)\<lparr>stats :=
              map (\<lambda>i. if 0 \<le> i \<and> i < NR_WB_STAT_ITEMS c
                        then stats (h self) ! i + stats (h other) ! i
                        else stats (h self) ! i) [0..<length (stats (h self))]\<rparr>))"
    using assms by (intro collect_items_upt) auto
  also have "map (\<lambda>i. if 0 \<le> i \<and> i < NR_WB_STAT_ITEMS c
                        then stats (h self) ! i + stats (h other) ! i
                        else stats (h self) ! i) [0..<length (stats (h self))] =
       map (\<lambda>i. stats (h self) ! i + stats (h other) ! i) [0..<NR_WB_STAT_ITEMS c]"
    using assms by simp
  finally have items: "collect_items [0..<NR_WB_STAT_ITEMS c] h self other =
       Inr (h(self := (h self)\<lparr>stats :=
              map (\<lambda>i. stats (h self) ! i + stats (h other) ! i) [0..<NR_WB_STAT_ITEMS c]\<rparr>))" .
  show ?thesis
    unfolding collectStats_def items using assms(1) by simp
qed

text \<open>
  C10. When \<^verbatim>\<open>collectStats\<close> returns, the object passed as \<^verbatim>\<open>wb_stats\<close> (another object
  than \<^verbatim>\<open>self\<close>) is what it was before the call, the name of \<^verbatim>\<open>self\<close> is unchanged, and
  so is every object of the store but \<^verbatim>\<open>self\<close>.
\<close>

theorem collectStats_frame:
  assumes "self \<noteq> other" and "collectStats c h self other = Inr h'"
  shows "h' other = h other \<and> name (h' self) = name (h self) \<and> (\<forall>r. r \<noteq> self \<longrightarrow> h' r = h r)"
proof -
  from assms(2) obtain h1 where
    h1: "collect_items [0..<NR_WB_STAT_ITEMS c] h self other = Inr h1"
    and h': "h' = h1(self := (h1 self)\<lparr>avg_bw := avg_bw (h1 self) + avg_bw (h1 other)\<rparr>)"
    by (auto simp: collectStats_def split: sum.splits)
  from collect_items_frame [OF h1]
  have "\<forall>r. r \<noteq> self \<longrightarrow> h1 r = h r" and "name (h1 self) = name (h self)"
    by blast+
  with h' assms(1) show ?thesis by simp
qed

theorem collectStats_frame_witness:
  "bdi_stats \<noteq> wb_stats \<and>
   collectStats example_prog example_heap bdi_stats wb_stats =
     Inr (example_heap(bdi_stats := \<lparr>name = ''bdi0'', stats = [48, 20, 96, 72], avg_bw = - 8\<rparr>)) \<and>
   (example_heap(bdi_stats := \<lparr>name = ''bdi0'', stats = [48, 20, 96, 72], avg_bw = - 8\<rparr>)) wb_stats =
     \<lparr>name = ''bdi0_42'', stats = [8, 0, 16, 12], avg_bw = - 8\<rparr> \<and>
   example_heap wb_stats = \<lparr>name = ''bdi0_42'', stats = [8, 0, 16, 12], avg_bw = - 8\<rparr>"
proof -
  have neq: "bdi_stats \<noteq> wb_stats"
    by (simp add: bdi_stats_def wb_stats_def)
  have run: "collectStats example_prog example_heap bdi_stats wb_stats =
     Inr (example_heap(bdi_stats := \<lparr>name = ''bdi0'', stats = [48, 20, 96, 72], avg_bw = - 8\<rparr>))"
    using neq
    by (subst collectStats_sum)
      (simp_all add: example_heap_def example_prog_def upt_rec)
  have old: "example_heap wb_stats = \<lparr>name = ''bdi0_42'', stats = [8, 0, 16, 12], avg_bw = - 8\<rparr>"
    by (simp add: example_heap_def)
  from collectStats_frame [OF neq run] old neq run show ?thesis
    by simp
qed

section \<open>The device loop and the monitoring loop\<close>

lemma refs_distinct: "bdi_stats \<noteq> wb_stats"
  by (simp add: bdi_stats_def wb_stats_def)

lemma show_stats_ok:
  assumes "prog_ok c" and "length (stats s) = NR_WB_STAT_ITEMS c"
  shows "\<exists>ev. show_stats tf now c s = Inr ev"
  using assms
  by (simp add: show_stats_def table_row_str_def dict_def getitem_def prog_ok_def)

lemma wb_loop_sum:
  assumes ok: "prog_ok c"
  shows "map (WbStats c) wbs = map Inr qs \<Longrightarrow>
    length (stats (h bdi_stats)) = NR_WB_STAT_ITEMS c \<Longrightarrow>
    \<exists>tr h'. wb_loop c a now h wbs = (tr, Inr h') \<and>
       h' bdi_stats = (h bdi_stats)\<lparr>
          stats := map (\<lambda>i. stats (h bdi_stats) ! i + sum_list (map (\<lambda>q. stats q ! i) qs))
                     [0..<NR_WB_STAT_ITEMS c],
          avg_bw := avg_bw (h bdi_stats) + sum_list (map avg_bw qs)\<rparr> \<and>
       (if args_cgroup a then map (show_stats (table_fmt a) now c) qs = map Inr tr
        else tr = [])"
proof (induction wbs arbitrary: qs h)
  case Nil
  then have "qs = []" by simp
  moreover have "map (\<lambda>i. stats (h bdi_stats) ! i) [0..<NR_WB_STAT_ITEMS c] = stats (h bdi_stats)"
    using Nil.prems(2) by (metis map_nth)
  ultimately show ?case by simp
next
  case (Cons wb wbs)
  from Cons.prems(1) obtain q qs' where qs: "qs = q # qs'"
    and q: "WbStats c wb = Inr q" and qs': "map (WbStats c) wbs = map Inr qs'"
    by (cases qs) auto
  have lq: "length (stats q) = NR_WB_STAT_ITEMS c"
    using q by (rule WbStats_length)
  let ?n = "NR_WB_STAT_ITEMS c"
  let ?h1 = "h(wb_stats := q)"
  let ?s2 = "(h bdi_stats)\<lparr>
      stats := map (\<lambda>i. stats (h bdi_stats) ! i + stats q ! i) [0..<?n],
      avg_bw := avg_bw (h bdi_stats) + avg_bw q\<rparr>"
  let ?h2 = "?h1(bdi_stats := ?s2)"
  have col: "collectStats c ?h1 bdi_stats wb_stats = Inr ?h2"
    using refs_distinct Cons.prems(2) lq
    by (subst collectStats_sum) simp_all
  have h2q: "?h2 wb_stats = q"
    using refs_distinct by simp
  have h2b: "?h2 bdi_stats = ?s2"
    by simp
  have len2: "length (stats (?h2 bdi_stats)) = ?n"
    by simp
  from Cons.IH [of qs' ?h2, OF qs' len2] obtain tr' h' where
    rest: "wb_loop c a now ?h2 wbs = (tr', Inr h')"
    and tot: "h' bdi_stats = (?h2 bdi_stats)\<lparr>
          stats := map (\<lambda>i. stats (?h2 bdi_stats) ! i + sum_list (map (\<lambda>q. stats q ! i) qs'))
                     [0..<?n],
          avg_bw := avg_bw (?h2 bdi_stats) + sum_list (map avg_bw qs')\<rparr>"
    and evs: "if args_cgroup a then map (show_stats (table_fmt a) now c) qs' = map Inr tr'
        else tr' = []"
    by blast
  have sums: "map (\<lambda>i. stats ?s2 ! i + sum_list (map (\<lambda>q. stats q ! i) qs')) [0..<?n] =
      map (\<lambda>i. stats (h bdi_stats) ! i + sum_list (map (\<lambda>q. stats q ! i) qs)) [0..<?n]"
    by (rule map_cong) (simp_all add: qs)
  have total: "h' bdi_stats = (h bdi_stats)\<lparr>
          stats := map (\<lambda>i. stats (h bdi_stats) ! i + sum_list (map (\<lambda>q. stats q ! i) qs))
                     [0..<?n],
          avg_bw := avg_bw (h bdi_stats) + sum_list (map avg_bw qs)\<rparr>"
    unfolding tot h2b sums by (simp add: qs)
  show ?case
  proof (cases "args_cgroup a")
    case False
    then have "wb_loop c a now h (wb # wbs) = (tr', Inr h')"
      using q col rest by simp
    moreover have "tr' = []" using evs False by simp
    ultimately show ?thesis using total False by simp
  next
    case True
    from show_stats_ok [OF ok lq] obtain ev where
      ev: "show_stats (table_fmt a) now c q = Inr ev" by blast
    have "wb_loop c a now h (wb # wbs) = (ev # tr', Inr h')"
      using q col rest True ev h2q by simp
    moreover have "map (show_stats (table_fmt a) now c) qs = map Inr (ev # tr')"
      using evs True ev qs by simp
    ultimately show ?thesis using total True by auto
  qed
qed

lemma WbStats_all:
  assumes "10 \<le> PAGE_SHIFT c"
  shows "\<exists>qs. map (WbStats c) wbs = map Inr qs"
proof (induction wbs)
  case Nil
  show ?case by simp
next
  case (Cons wb wbs)
  then obtain qs where "map (WbStats c) wbs = map Inr qs" by blast
  moreover obtain q where "WbStats c wb = Inr q"
    using WbStats_shift [OF assms] by blast
  ultimately have "map (WbStats c) (wb # wbs) = map Inr (q # qs)" by simp
  then show ?case by blast
qed

lemma bdi_body_sum:
  assumes "prog_ok c" and "\<not> skipped re_search f (dev_name bdi)"
  shows "\<exists>qs tr ev h'.
     map (WbStats c) (wb_list bdi) = map Inr qs \<and>
     h' bdi_stats =
       \<lparr>name = dev_name bdi,
        stats = map (\<lambda>i. sum_list (map (\<lambda>q. stats q ! i) qs)) [0..<NR_WB_STAT_ITEMS c],
        avg_bw = sum_list (map avg_bw qs)\<rparr> \<and>
     show_stats (table_fmt a) now c (h' bdi_stats) = Inr ev \<and>
     (if args_cgroup a then map (show_stats (table_fmt a) now c) qs = map Inr tr else tr = []) \<and>
     bdi_body re_search c a f now h bdi =
       (tr @ [ev] @ (if args_cgroup a \<and> table_fmt a then [Print []] else []), Inr h')"
proof -
  let ?n = "NR_WB_STAT_ITEMS c"
  let ?h1 = "h(bdi_stats := BdiStats c bdi)"
  have ps: "10 \<le> PAGE_SHIFT c"
    using assms(1) by (simp add: prog_ok_def)
  from WbStats_all [OF ps] obtain qs where
    qs: "map (WbStats c) (wb_list bdi) = map Inr qs" by blast
  have len: "length (stats (?h1 bdi_stats)) = ?n"
    by (simp add: BdiStats_def)
  from wb_loop_sum [where h = ?h1 and a = a and now = now, OF assms(1) qs len] obtain tr h' where
    run: "wb_loop c a now ?h1 (wb_list bdi) = (tr, Inr h')"
    and tot: "h' bdi_stats = (?h1 bdi_stats)\<lparr>
          stats := map (\<lambda>i. stats (?h1 bdi_stats) ! i + sum_list (map (\<lambda>q. stats q ! i) qs))
                     [0..<?n],
          avg_bw := avg_bw (?h1 bdi_stats) + sum_list (map avg_bw qs)\<rparr>"
    and evs: "if args_cgroup a then map (show_stats (table_fmt a) now c) qs = map Inr tr
        else tr = []"
    by blast
  have zero: "map (\<lambda>i. stats (?h1 bdi_stats) ! i + sum_list (map (\<lambda>q. stats q ! i) qs)) [0..<?n] =
      map (\<lambda>i. sum_list (map (\<lambda>q. stats q ! i) qs)) [0..<?n]"
    by (rule map_cong) (simp_all add: BdiStats_def)
  have total: "h' bdi_stats =
       \<lparr>name = dev_name bdi,
        stats = map (\<lambda>i. sum_list (map (\<lambda>q. stats q ! i) qs)) [0..<?n],
        avg_bw = sum_list (map avg_bw qs)\<rparr>"
    unfolding tot zero by (simp add: BdiStats_def)
  have "length (stats (h' bdi_stats)) = ?n"
    unfolding total by simp
  from show_stats_ok [OF assms(1) this] obtain ev where
    ev: "show_stats (table_fmt a) now c (h' bdi_stats) = Inr ev" by blast
  have "bdi_body re_search c a f now h bdi =
       (tr @ [ev] @ (if args_cgroup a \<and> table_fmt a then [Print []] else []), Inr h')"
    using assms(2) run ev by (simp add: bdi_body_def Let_def BdiStats_def)
  with qs total ev evs show ?thesis by blast
qed


text \<open>
  C1. For a device that passes the name filter, whatever the store holds when the body of
  the device loop starts (so whatever earlier devices and earlier passes left there), the
  body ends with \<^verbatim>\<open>bdi_stats\<close> bound to an object whose name is the name of the device,
  whose counter \<open>i\<close> is the sum of the counters \<open>i\<close> of the queue samples of exactly the
  writeback structures enumerated for this device, and whose bandwidth is the sum of
  their bandwidths. This object is the one reported, after the samples of the queues
  when \<^verbatim>\<open>--cgroup\<close> is set. The sums start from zero: \<open>BdiStats\<close> makes a new object for each
  device in each pass.
\<close>

theorem device_total_is_sum:
  assumes "prog_ok c" and "\<not> skipped re_search f (dev_name bdi)"
  shows "\<exists>qs tr ev h'.
     map (WbStats c) (wb_list bdi) = map Inr qs \<and>
     h' bdi_stats =
       \<lparr>name = dev_name bdi,
        stats = map (\<lambda>i. sum_list (map (\<lambda>q. stats q ! i) qs)) [0..<NR_WB_STAT_ITEMS c],
        avg_bw = sum_list (map avg_bw qs)\<rparr> \<and>
     show_stats (table_fmt a) now c (h' bdi_stats) = Inr ev \<and>
     (if args_cgroup a then map (show_stats (table_fmt a) now c) qs = map Inr tr else tr = []) \<and>
     bdi_body re_search c a f now h bdi =
       (tr @ [ev] @ (if args_cgroup a \<and> table_fmt a then [Print []] else []), Inr h')"
  using assms by (rule bdi_body_sum)

lemma example_prog_ok: "prog_ok example_prog"
  by (simp add: prog_ok_def example_prog_def)

theorem device_total_is_sum_witness:
  "prog_ok example_prog \<and>
   \<not> skipped (\<lambda>rx s. False) (None :: string option) (dev_name example_bdi) \<and>
   (\<exists>tr h'. bdi_body (\<lambda>rx s. False) example_prog example_args (None :: string option) 0
        example_heap example_bdi = (tr, Inr h') \<and>
      h' bdi_stats = \<lparr>name = ''bdi0'', stats = [48, 20, 96, 72], avg_bw = 12\<rparr>)"
proof -
  have acc: "\<not> skipped (\<lambda>rx s. False) (None :: string option) (dev_name example_bdi)"
    by (simp add: skipped_def)
  from device_total_is_sum [OF example_prog_ok acc, of example_args 0 example_heap]
  obtain qs tr ev h' where
    qs: "map (WbStats example_prog) (wb_list example_bdi) = map Inr qs"
    and tot: "h' bdi_stats =
       \<lparr>name = dev_name example_bdi,
        stats = map (\<lambda>i. sum_list (map (\<lambda>q. stats q ! i) qs)) [0..<NR_WB_STAT_ITEMS example_prog],
        avg_bw = sum_list (map avg_bw qs)\<rparr>"
    and run: "bdi_body (\<lambda>rx s. False) example_prog example_args (None :: string option) 0
        example_heap example_bdi =
       (tr @ [ev] @ (if args_cgroup example_args \<and> table_fmt example_args then [Print []] else []),
        Inr h')"
    by blast
  from qs have "qs = [\<lparr>name = ''bdi0_1'', stats = [40, 20, 80, 60], avg_bw = 0\<rparr>,
      \<lparr>name = ''bdi0_42'', stats = [8, 0, 16, 12], avg_bw = 12\<rparr>]"
    by (auto simp: example_bdi_def WbStats_example_wb WbStats_example_cgwb)
  with tot have "h' bdi_stats = \<lparr>name = ''bdi0'', stats = [48, 20, 96, 72], avg_bw = 12\<rparr>"
    by (simp add: example_prog_def example_bdi_def upt_rec)
  with run acc example_prog_ok show ?thesis by blast
qed

lemma bdi_body_ok:
  assumes "prog_ok c"
  shows "\<exists>tr h'. bdi_body re_search c a f now h bdi = (tr, Inr h')"
proof (cases "skipped re_search f (dev_name bdi)")
  case True
  then show ?thesis by (simp add: bdi_body_def Let_def BdiStats_def)
next
  case False
  from bdi_body_sum [OF assms False, of a now h] show ?thesis by blast
qed

lemma bdi_body_report:
  assumes "prog_ok c" and "\<not> skipped re_search f (dev_name bdi)"
  shows "\<exists>t h'. spec_device_report c a now bdi t \<and>
     bdi_body re_search c a f now h bdi =
       (t @ (if args_cgroup a \<and> table_fmt a then [Print []] else []), Inr h')"
proof -
  from bdi_body_sum [OF assms, of a now h] obtain qs tr ev h' where
    qs: "map (WbStats c) (wb_list bdi) = map Inr qs"
    and tot: "h' bdi_stats =
       \<lparr>name = dev_name bdi,
        stats = map (\<lambda>i. sum_list (map (\<lambda>q. stats q ! i) qs)) [0..<NR_WB_STAT_ITEMS c],
        avg_bw = sum_list (map avg_bw qs)\<rparr>"
    and ev: "show_stats (table_fmt a) now c (h' bdi_stats) = Inr ev"
    and evs: "if args_cgroup a then map (show_stats (table_fmt a) now c) qs = map Inr tr
        else tr = []"
    and run: "bdi_body re_search c a f now h bdi =
       (tr @ [ev] @ (if args_cgroup a \<and> table_fmt a then [Print []] else []), Inr h')"
    by blast
  have "map (show_stats (table_fmt a) now c)
          ((if args_cgroup a then qs else []) @
           [\<lparr>name = dev_name bdi,
             stats = map (\<lambda>i. sum_list (map (\<lambda>q. stats q ! i) qs)) [0..<NR_WB_STAT_ITEMS c],
             avg_bw = sum_list (map avg_bw qs)\<rparr>]) = map Inr (tr @ [ev])"
    using evs ev tot by (cases "args_cgroup a") simp_all
  with qs have "spec_device_report c a now bdi (tr @ [ev])"
    unfolding spec_device_report_def by blast
  with run show ?thesis by auto
qed

lemma bdi_loop_report:
  assumes "prog_ok c"
  shows "\<exists>ts h'.
     list_all2 (spec_device_report c a now)
       (filter (\<lambda>bdi. \<not> skipped re_search f (dev_name bdi)) bdis) ts \<and>
     bdi_loop re_search c a f now h bdis =
       (concat (map (\<lambda>t. t @ (if args_cgroup a \<and> table_fmt a then [Print []] else [])) ts),
        Inr h')"
proof (induction bdis arbitrary: h)
  case Nil
  show ?case by simp
next
  case (Cons bdi bdis)
  let ?sep = "if args_cgroup a \<and> table_fmt a then [Print []] else []"
  show ?case
  proof (cases "skipped re_search f (dev_name bdi)")
    case True
    then have b: "bdi_body re_search c a f now h bdi = ([], Inr (h(bdi_stats := BdiStats c bdi)))"
      by (simp add: bdi_body_def Let_def BdiStats_def)
    from Cons.IH [of "h(bdi_stats := BdiStats c bdi)"] obtain ts h' where
      "list_all2 (spec_device_report c a now)
         (filter (\<lambda>bdi. \<not> skipped re_search f (dev_name bdi)) bdis) ts"
      and "bdi_loop re_search c a f now (h(bdi_stats := BdiStats c bdi)) bdis =
         (concat (map (\<lambda>t. t @ ?sep) ts), Inr h')"
      by blast
    with True b show ?thesis by auto
  next
    case False
    from bdi_body_report [OF assms False, of a now h] obtain t h1 where
      t: "spec_device_report c a now bdi t"
      and b: "bdi_body re_search c a f now h bdi = (t @ ?sep, Inr h1)"
      by blast
    from Cons.IH [of h1] obtain ts h' where
      ts: "list_all2 (spec_device_report c a now)
         (filter (\<lambda>bdi. \<not> skipped re_search f (dev_name bdi)) bdis) ts"
      and l: "bdi_loop re_search c a f now h1 bdis = (concat (map (\<lambda>t. t @ ?sep) ts), Inr h')"
      by blast
    have "list_all2 (spec_device_report c a now)
       (filter (\<lambda>bdi. \<not> skipped re_search f (dev_name bdi)) (bdi # bdis)) (t # ts)"
      using False t ts by simp
    moreover have "bdi_loop re_search c a f now h (bdi # bdis) =
       (concat (map (\<lambda>t. t @ ?sep) (t # ts)), Inr h')"
      using b l by simp
    ultimately show ?thesis by blast
  qed
qed

lemma pass_full:
  assumes "prog_ok c"
  shows "\<exists>tr h'. spec_full_pass re_search c a f w tr \<and> pass re_search c a f h w = (tr, Inr h')"
proof -
  from bdi_loop_report [OF assms, of a "time_time w" re_search f "bdi_list w" h]
  obtain ts h' where
    ts: "list_all2 (spec_device_report c a (time_time w))
       (filter (\<lambda>bdi. \<not> skipped re_search f (dev_name bdi)) (bdi_list w)) ts"
    and l: "bdi_loop re_search c a f (time_time w) h (bdi_list w) =
       (concat (map (\<lambda>t. t @ (if args_cgroup a \<and> table_fmt a then [Print []] else [])) ts),
        Inr h')"
    by blast
  from ts have "spec_full_pass re_search c a f w
      (show_header (table_fmt a) @
       concat (map (\<lambda>t. t @ (if args_cgroup a \<and> table_fmt a then [Print []] else [])) ts))"
    unfolding spec_full_pass_def show_header_def by blast
  moreover from l have "pass re_search c a f h w =
      (show_header (table_fmt a) @
       concat (map (\<lambda>t. t @ (if args_cgroup a \<and> table_fmt a then [Print []] else [])) ts),
       Inr h')"
    by (simp add: pass_def)
  ultimately show ?thesis by blast
qed

lemma example_prog_simps:
  "WB_RECLAIMABLE example_prog = 0" "WB_WRITEBACK example_prog = 1"
  "WB_DIRTIED example_prog = 2" "WB_WRITTEN example_prog = 3"
  "NR_WB_STAT_ITEMS example_prog = 4" "PAGE_SHIFT example_prog = 12"
  by (simp_all add: example_prog_def)

lemma replicate_at_numeral: "replicate (numeral k) c = c # replicate (numeral k - 1) c"
  by (simp add: numeral_eq_Suc)

lemma pass_example:
  "fst (pass (\<lambda>rx s. True) example_prog (example_args\<lparr>args_interval := secs\<rparr>)
     (None :: string option) (\<lambda>r. no_object)
     \<lparr>time_time = 0, bdi_list = [example_bdi], sigint_in_pass = True,
      sigint_in_sleep = False\<rparr>) =
   [Print [],
    Print ''                  writeback  reclaimable   dirtied   written    avg_bw'',
    Print ''bdi0_1                   20           40        80        60         0 '',
    Print ''bdi0_42                   0            8        16        12        12 '',
    Print ''bdi0                     20           48        96        72        12 '',
    Print []]"
  by (simp add: pass_def bdi_body_def Let_def example_bdi_def WbStats_example_wb
      WbStats_example_cgwb collectStats_def BdiStats_def refs_distinct refs_distinct [symmetric]
      show_header_def show_stats_def table_fmt_def example_args_def table_header_str_def
      table_row_str_def getitem_def format_str_def format_str_right_def format_int_def
      last16_def str_int_def str_nat.simps digit_char_def no_object_def example_prog_simps
      upt_rec replicate_at_numeral skipped_def)

text \<open>
  C6, as amended. With an interval of exactly 0, and no SIGINT between the registration
  of the handler and the first test of the loop, \<^verbatim>\<open>main\<close> runs one full pass and returns:
  what it prints is the header and the report of every device the filter does not skip,
  whatever the signal flags of that pass are, and no later world is looked at. When
  SIGINT does arrive before the first test, \<^verbatim>\<open>main\<close> returns with no pass at all.
\<close>

theorem one_shot:
  assumes "args_interval a = 0" and "prog_ok c" and "filter_re re_compile a = Inr f"
  shows "\<exists>tr. spec_full_pass re_search c a f w tr \<and>
     main re_compile re_search c a False (w # ws) = (tr, Returned) \<and>
     main re_compile re_search c a True (w # ws) = ([], Returned)"
proof -
  from pass_full [OF assms(2)] obtain tr h' where
    full: "spec_full_pass re_search c a f w tr"
    and p: "pass re_search c a f (\<lambda>r. no_object) w = (tr, Inr h')"
    by blast
  from p have "main re_compile re_search c a False (w # ws) = (tr, Returned)"
    using assms(1,3) by (simp add: main_def)
  moreover have "main re_compile re_search c a True (w # ws) = ([], Returned)"
    using assms(3) by (simp add: main_def)
  ultimately show ?thesis using full by blast
qed

theorem one_shot_witness:
  "args_interval (example_args\<lparr>args_interval := 0\<rparr>) = 0 \<and> prog_ok example_prog \<and>
   filter_re (\<lambda>s. Some s) (example_args\<lparr>args_interval := 0\<rparr>) = Inr None \<and>
   main (\<lambda>s. Some s) (\<lambda>rx s. True) example_prog (example_args\<lparr>args_interval := 0\<rparr>) False
     [\<lparr>time_time = 0, bdi_list = [example_bdi], sigint_in_pass = True,
       sigint_in_sleep = False\<rparr>] =
   ([Print [],
     Print ''                  writeback  reclaimable   dirtied   written    avg_bw'',
     Print ''bdi0_1                   20           40        80        60         0 '',
     Print ''bdi0_42                   0            8        16        12        12 '',
     Print ''bdi0                     20           48        96        72        12 '',
     Print []], Returned)"
proof -
  let ?a = "example_args\<lparr>args_interval := 0\<rparr>"
  let ?w = "\<lparr>time_time = 0, bdi_list = [example_bdi], sigint_in_pass = True,
         sigint_in_sleep = False\<rparr>"
  have i: "args_interval ?a = 0"
    by simp
  have f: "filter_re (\<lambda>s. Some s) ?a = Inr (None :: string option)"
    by (simp add: filter_re_def re_str_def example_args_def)
  have "\<exists>tr. spec_full_pass (\<lambda>rx s. True) example_prog ?a (None :: string option) ?w tr \<and>
      main (\<lambda>s. Some s) (\<lambda>rx s. True) example_prog ?a False (?w # []) = (tr, Returned) \<and>
      main (\<lambda>s. Some s) (\<lambda>rx s. True) example_prog ?a True (?w # []) = ([], Returned)"
    using i example_prog_ok f by (rule one_shot)
  then obtain tr where
    m: "main (\<lambda>s. Some s) (\<lambda>rx s. True) example_prog ?a False [?w] = (tr, Returned)"
    by blast
  have "fst (main (\<lambda>s. Some s) (\<lambda>rx s. True) example_prog ?a False [?w]) =
      fst (pass (\<lambda>rx s. True) example_prog ?a (None :: string option) (\<lambda>r. no_object) ?w)"
    using f by (simp add: main_def split: prod.splits sum.splits)
  with m pass_example [of 0] have "tr =
    [Print [],
     Print ''                  writeback  reclaimable   dirtied   written    avg_bw'',
     Print ''bdi0_1                   20           40        80        60         0 '',
     Print ''bdi0_42                   0            8        16        12        12 '',
     Print ''bdi0                     20           48        96        72        12 '',
     Print []]"
    by simp
  with m i f example_prog_ok show ?thesis
    by simp
qed

text \<open>
  The claim C6 as stated fails: with interval 0 and SIGINT arriving after the handler is
  registered and before the loop first tests \<^verbatim>\<open>exit_req\<close>, the run performs no iteration;
  not even the header is printed.
\<close>

theorem early_sigint_counterexample:
  "args_interval (example_args\<lparr>args_interval := 0\<rparr>) = 0 \<and>
   main (\<lambda>s. Some s) (\<lambda>rx s. True) example_prog (example_args\<lparr>args_interval := 0\<rparr>) True
     [\<lparr>time_time = 0, bdi_list = [example_bdi], sigint_in_pass = False,
       sigint_in_sleep = False\<rparr>] = ([], Returned)"
  by (simp add: main_def filter_re_def re_str_def example_args_def)

text \<open>
  C7, as amended. With an interval other than 0, a pass that has started runs to its end:
  it prints the header and the report of every device the filter does not skip, whatever
  the signal flags are. Then \<^verbatim>\<open>time.sleep\<close> is called with the interval whether or not
  SIGINT has arrived during the pass; the call raises, and ends the run, for an interval
  that is negative or beyond the range of the clock, and otherwise the run sleeps for the
  interval. \<^verbatim>\<open>exit_req\<close> is looked at only afterwards, at the top of the loop, where a
  request that arrived during the pass or during the sleep ends the loop with no further
  pass.
\<close>

theorem sleep_before_stop_check:
  assumes "args_interval a \<noteq> 0" and "prog_ok c"
  shows "\<exists>tr h'. spec_full_pass re_search c a f w tr \<and>
     pass re_search c a f h w = (tr, Inr h') \<and>
     monitor_loop re_search c a f False h (w # ws) =
       (if args_interval a * 1000000000 < - (2 ^ 63) \<or> 2 ^ 63 - 1 < args_interval a * 1000000000
        then (tr, Raised OverflowError)
        else if args_interval a < 0 then (tr, Raised ValueError)
        else case monitor_loop re_search c a f (sigint_in_pass w \<or> sigint_in_sleep w) h' ws of
               (tr', r) \<Rightarrow> (tr @ Sleep (args_interval a) # tr', r)) \<and>
     monitor_loop re_search c a f True h' ws = ([], Returned)"
proof -
  from pass_full [OF assms(2)] obtain tr h' where
    full: "spec_full_pass re_search c a f w tr"
    and p: "pass re_search c a f h w = (tr, Inr h')"
    by blast
  have stop: "monitor_loop re_search c a f True h' ws = ([], Returned)"
    by (cases ws) simp_all
  have "monitor_loop re_search c a f False h (w # ws) =
       (if args_interval a * 1000000000 < - (2 ^ 63) \<or> 2 ^ 63 - 1 < args_interval a * 1000000000
        then (tr, Raised OverflowError)
        else if args_interval a < 0 then (tr, Raised ValueError)
        else case monitor_loop re_search c a f (sigint_in_pass w \<or> sigint_in_sleep w) h' ws of
               (tr', r) \<Rightarrow> (tr @ Sleep (args_interval a) # tr', r))"
    using assms(1) p by (simp add: time_sleep_def)
  with full p stop show ?thesis by blast
qed

theorem sleep_before_stop_check_witness:
  "args_interval example_args \<noteq> 0 \<and> prog_ok example_prog \<and>
   monitor_loop (\<lambda>rx s. True) example_prog example_args (None :: string option) False
     (\<lambda>r. no_object)
     [\<lparr>time_time = 0, bdi_list = [example_bdi], sigint_in_pass = True,
       sigint_in_sleep = False\<rparr>] =
   ([Print [],
     Print ''                  writeback  reclaimable   dirtied   written    avg_bw'',
     Print ''bdi0_1                   20           40        80        60         0 '',
     Print ''bdi0_42                   0            8        16        12        12 '',
     Print ''bdi0                     20           48        96        72        12 '',
     Print [],
     Sleep 1], Returned)"
proof -
  let ?w = "\<lparr>time_time = 0, bdi_list = [example_bdi], sigint_in_pass = True,
         sigint_in_sleep = False\<rparr>"
  have i: "args_interval example_args \<noteq> 0"
    by (simp add: example_args_def)
  from sleep_before_stop_check [OF i example_prog_ok, of "\<lambda>rx s. True" "None :: string option"
      ?w "\<lambda>r. no_object" "[]"]
  obtain tr h' where
    p: "pass (\<lambda>rx s. True) example_prog example_args (None :: string option) (\<lambda>r. no_object) ?w =
       (tr, Inr h')"
    and l: "monitor_loop (\<lambda>rx s. True) example_prog example_args (None :: string option) False
        (\<lambda>r. no_object) [?w] =
       (if args_interval example_args * 1000000000 < - (2 ^ 63) \<or>
           2 ^ 63 - 1 < args_interval example_args * 1000000000
        then (tr, Raised OverflowError)
        else if args_interval example_args < 0 then (tr, Raised ValueError)
        else case monitor_loop (\<lambda>rx s. True) example_prog example_args (None :: string option)
                 (sigint_in_pass ?w \<or> sigint_in_sleep ?w) h' [] of
               (tr', r) \<Rightarrow> (tr @ Sleep (args_interval example_args) # tr', r))"
    by blast
  from l have "monitor_loop (\<lambda>rx s. True) example_prog example_args (None :: string option) False
        (\<lambda>r. no_object) [?w] = (tr @ [Sleep 1], Returned)"
    by (simp add: example_args_def)
  moreover have "example_args\<lparr>args_interval := 1\<rparr> = example_args"
    by (simp add: example_args_def)
  with p pass_example [of 1] have "tr =
    [Print [],
     Print ''                  writeback  reclaimable   dirtied   written    avg_bw'',
     Print ''bdi0_1                   20           40        80        60         0 '',
     Print ''bdi0_42                   0            8        16        12        12 '',
     Print ''bdi0                     20           48        96        72        12 '',
     Print []]"
    by simp
  ultimately show ?thesis using i example_prog_ok by simp
qed

text \<open>
  The claim C7 as stated fails: with interval 1 and SIGINT arriving during the first
  pass, the run still sleeps for the interval before it returns.
\<close>

theorem sleep_after_interrupt_counterexample:
  "main (\<lambda>s. Some s) (\<lambda>rx s. True) example_prog
     \<lparr>args_bdi = [], args_interval = 1, args_json = False, args_cgroup = False\<rparr> False
     [\<lparr>time_time = 0, bdi_list = [], sigint_in_pass = True, sigint_in_sleep = False\<rparr>] =
   ([Print [], Print table_header_str, Sleep 1], Returned)"
  by (simp add: main_def filter_re_def re_str_def pass_def show_header_def table_fmt_def
      time_sleep_def)

text \<open>
  C9, as amended. When the alternation of the supplied patterns (the patterns joined by
  \<^verbatim>\<open>|\<close>) is not empty and \<^verbatim>\<open>re.compile\<close> rejects it, \<^verbatim>\<open>main\<close> raises before the first
  pass: nothing is printed and no device is enumerated, whatever the worlds are.
\<close>

theorem invalid_alternation_raises:
  assumes "join ''|'' (args_bdi a) \<noteq> []" and "re_compile (join ''|'' (args_bdi a)) = None"
  shows "main re_compile re_search c a sigint_before_loop ws = ([], Raised ReError)"
proof -
  from assms(1) have "args_bdi a \<noteq> []" by auto
  with assms show ?thesis
    by (simp add: main_def filter_re_def re_str_def)
qed

theorem invalid_alternation_raises_witness:
  "join ''|'' (args_bdi (example_args\<lparr>args_bdi := [''(a'']\<rparr>)) \<noteq> [] \<and>
   re_compile_parens (join ''|'' (args_bdi (example_args\<lparr>args_bdi := [''(a'']\<rparr>))) = None \<and>
   main re_compile_parens re_search_literal example_prog (example_args\<lparr>args_bdi := [''(a'']\<rparr>)
     False
     [\<lparr>time_time = 0, bdi_list = [example_bdi], sigint_in_pass = False,
       sigint_in_sleep = False\<rparr>] = ([], Raised ReError)"
proof -
  have j: "join ''|'' (args_bdi (example_args\<lparr>args_bdi := [''(a'']\<rparr>)) \<noteq> []"
    by simp
  have n: "re_compile_parens (join ''|'' (args_bdi (example_args\<lparr>args_bdi := [''(a'']\<rparr>))) = None"
    by (simp add: re_compile_parens_def)
  have "main re_compile_parens re_search_literal example_prog (example_args\<lparr>args_bdi := [''(a'']\<rparr>)
     False
     [\<lparr>time_time = 0, bdi_list = [example_bdi], sigint_in_pass = False,
       sigint_in_sleep = False\<rparr>] = ([], Raised ReError)"
    using j n by (rule invalid_alternation_raises)
  with j n show ?thesis by simp
qed

text \<open>
  The claim C9 as stated fails: each of the patterns \<^verbatim>\<open>(a\<close> and \<^verbatim>\<open>b)\<close> is an invalid
  regular expression, but the script compiles only their alternation \<^verbatim>\<open>(a|b)\<close>, which is
  valid; the run prints the header and returns.
\<close>

theorem invalid_fragments_counterexample:
  "re_compile_parens ''(a'' = None \<and> re_compile_parens ''b)'' = None \<and>
   main re_compile_parens (\<lambda>rx s. False) example_prog
     \<lparr>args_bdi = [''(a'', ''b)''], args_interval = 0, args_json = False, args_cgroup = False\<rparr>
     False
     [\<lparr>time_time = 0, bdi_list = [], sigint_in_pass = False, sigint_in_sleep = False\<rparr>] =
   ([Print [], Print table_header_str], Returned)"
  by (simp add: main_def filter_re_def re_str_def pass_def show_header_def table_fmt_def
      re_compile_parens_def)

text \<open>
  C4. With no pattern the filter is \<^verbatim>\<open>None\<close> and no device is skipped. With one or more
  patterns whose alternation compiles to \<open>rx\<close>, a device is skipped exactly when
  \<^verbatim>\<open>rx.search\<close> finds no match in its name (when the alternation is the empty string the
  script does not compile it and skips nothing, which is what a search for the empty
  pattern gives: the assumption). The test reads the name of the device only. For a
  skipped device the body of the device loop prints nothing and only binds
  \<^verbatim>\<open>bdi_stats\<close> to the new, all-zero object: no writeback structure is read.
\<close>

theorem name_filter:
  assumes "\<And>rx s. re_compile [] = Some rx \<Longrightarrow> re_search rx s"
  shows "filter_re re_compile (a\<lparr>args_bdi := []\<rparr>) = Inr None \<and>
     \<not> skipped re_search None n \<and>
     (args_bdi a \<noteq> [] \<and> re_compile (join ''|'' (args_bdi a)) = Some rx \<longrightarrow>
        (\<exists>g. filter_re re_compile a = Inr g \<and>
           (\<forall>s. skipped re_search g s = (\<not> re_search rx s)))) \<and>
     (skipped re_search f (dev_name bdi) \<longrightarrow>
        bdi_body re_search c a f now h bdi =
          ([], Inr (h(bdi_stats :=
             \<lparr>name = dev_name bdi, stats = replicate (NR_WB_STAT_ITEMS c) 0, avg_bw = 0\<rparr>))))"
proof (intro conjI impI)
  show "filter_re re_compile (a\<lparr>args_bdi := []\<rparr>) = Inr None"
    by (simp add: filter_re_def re_str_def)
next
  show "\<not> skipped re_search None n"
    by (simp add: skipped_def)
next
  assume h: "args_bdi a \<noteq> [] \<and> re_compile (join ''|'' (args_bdi a)) = Some rx"
  show "\<exists>g. filter_re re_compile a = Inr g \<and> (\<forall>s. skipped re_search g s = (\<not> re_search rx s))"
  proof (cases "join ''|'' (args_bdi a) = []")
    case True
    with h have "re_compile [] = Some rx" by simp
    then have "\<forall>s. re_search rx s" using assms by blast
    moreover have "filter_re re_compile a = Inr None"
      using h True by (simp add: filter_re_def re_str_def)
    ultimately show ?thesis by (simp add: skipped_def)
  next
    case False
    with h have "filter_re re_compile a = Inr (Some rx)"
      by (simp add: filter_re_def re_str_def)
    then show ?thesis by (simp add: skipped_def)
  qed
next
  assume "skipped re_search f (dev_name bdi)"
  then show "bdi_body re_search c a f now h bdi =
          ([], Inr (h(bdi_stats :=
             \<lparr>name = dev_name bdi, stats = replicate (NR_WB_STAT_ITEMS c) 0, avg_bw = 0\<rparr>)))"
    by (simp add: bdi_body_def Let_def BdiStats_def)
qed

theorem name_filter_witness:
  "re_compile_parens [] = Some [] \<and> (\<forall>s. re_search_literal [] s) \<and>
   args_bdi (example_args\<lparr>args_bdi := [''^nvme'']\<rparr>) \<noteq> [] \<and>
   re_compile_parens (join ''|'' (args_bdi (example_args\<lparr>args_bdi := [''^nvme'']\<rparr>))) =
     Some ''^nvme'' \<and>
   filter_re re_compile_parens (example_args\<lparr>args_bdi := [''^nvme'']\<rparr>) = Inr (Some ''^nvme'') \<and>
   \<not> skipped re_search_literal (Some ''^nvme'') ''nvme0n1'' \<and>
   skipped re_search_literal (Some ''^nvme'') ''sda'' \<and>
   skipped re_search_literal (Some ''^nvme'') (dev_name (example_bdi\<lparr>dev_name := ''sda''\<rparr>)) \<and>
   bdi_body re_search_literal example_prog (example_args\<lparr>args_bdi := [''^nvme'']\<rparr>)
       (Some ''^nvme'') 0 example_heap (example_bdi\<lparr>dev_name := ''sda''\<rparr>) =
     ([], Inr (example_heap(bdi_stats := \<lparr>name = ''sda'', stats = [0, 0, 0, 0], avg_bw = 0\<rparr>)))"
proof -
  let ?a = "example_args\<lparr>args_bdi := [''^nvme'']\<rparr>"
  let ?b = "example_bdi\<lparr>dev_name := ''sda''\<rparr>"
  have lib: "\<And>rx s. re_compile_parens [] = Some rx \<Longrightarrow> re_search_literal rx s"
    by (auto simp: re_compile_parens_def re_search_literal_def)
  have c0: "re_compile_parens [] = Some []"
    by (simp add: re_compile_parens_def)
  have s0: "\<forall>s. re_search_literal [] s"
    by (simp add: re_search_literal_def)
  have ne: "args_bdi ?a \<noteq> []" by simp
  have cp: "re_compile_parens (join ''|'' (args_bdi ?a)) = Some ''^nvme''"
    by (simp add: re_compile_parens_def)
  have fr: "filter_re re_compile_parens ?a = Inr (Some ''^nvme'')"
    by (simp add: filter_re_def re_str_def re_compile_parens_def)
  have acc: "\<not> skipped re_search_literal (Some ''^nvme'') ''nvme0n1''"
    by (simp add: skipped_def re_search_literal_def)
  have rej: "skipped re_search_literal (Some ''^nvme'') ''sda''"
    by (simp add: skipped_def re_search_literal_def)
  have rej': "skipped re_search_literal (Some ''^nvme'') (dev_name ?b)"
    using rej by simp
  from name_filter [of re_compile_parens re_search_literal ?a "''sda''" "''^nvme''"
      "Some ''^nvme''" ?b example_prog 0 example_heap, OF lib] rej'
  have "bdi_body re_search_literal example_prog ?a (Some ''^nvme'') 0 example_heap ?b =
     ([], Inr (example_heap(bdi_stats :=
        \<lparr>name = dev_name ?b, stats = replicate (NR_WB_STAT_ITEMS example_prog) 0, avg_bw = 0\<rparr>)))"
    by blast
  then have "bdi_body re_search_literal example_prog ?a (Some ''^nvme'') 0 example_heap ?b =
     ([], Inr (example_heap(bdi_stats := \<lparr>name = ''sda'', stats = [0, 0, 0, 0], avg_bw = 0\<rparr>)))"
    by (simp add: example_prog_def numeral_eq_Suc)
  with c0 s0 ne cp fr acc rej rej' show ?thesis by blast
qed

section \<open>Table rows\<close>

lemma length_format_str: "length (format_str w s) = max w (length s)"
  by (simp add: format_str_def)

lemma length_last16: "length (last16 s) = min 16 (length s)"
  by (simp add: last16_def)

text \<open>
  C8, as amended. A table row is six columns, each followed by one space, in the order
  name, writeback, reclaimable, dirtied, written, average bandwidth. The name column is
  the last 16 characters of the name (the whole name when it is shorter) followed by
  spaces up to 16 characters: it is left-aligned and always 16 wide. A numeric column is
  the decimal value preceded by spaces up to the width 10, 12, 9, 9, 9 of the column: it
  is right-aligned, and wider than that when the value has more characters. The
  dictionary of the structured output carries the whole name.
\<close>

theorem table_row_layout:
  assumes "WB_WRITEBACK c < length (stats s)" and "WB_RECLAIMABLE c < length (stats s)"
    and "WB_DIRTIED c < length (stats s)" and "WB_WRITTEN c < length (stats s)"
  shows "table_row_str c s =
       Inr (format_str 16 (last16 (name s)) @ '' '' @
            format_int 10 (stats s ! WB_WRITEBACK c) @ '' '' @
            format_int 12 (stats s ! WB_RECLAIMABLE c) @ '' '' @
            format_int 9 (stats s ! WB_DIRTIED c) @ '' '' @
            format_int 9 (stats s ! WB_WRITTEN c) @ '' '' @
            format_int 9 (avg_bw s) @ '' '') \<and>
     format_str 16 (last16 (name s)) =
       drop (length (name s) - 16) (name s) @ replicate (16 - length (name s)) CHR '' '' \<and>
     length (format_str 16 (last16 (name s))) = 16 \<and>
     (\<forall>w v. format_int w v = replicate (w - length (str_int v)) CHR '' '' @ str_int v \<and>
        length (format_int w v) = max w (length (str_int v))) \<and>
     (\<exists>d. dict c s now = Inr d \<and> map_of d ''name'' = Some (PyStr (name s)))"
proof -
  have row: "table_row_str c s =
       Inr (format_str 16 (last16 (name s)) @ '' '' @
            format_int 10 (stats s ! WB_WRITEBACK c) @ '' '' @
            format_int 12 (stats s ! WB_RECLAIMABLE c) @ '' '' @
            format_int 9 (stats s ! WB_DIRTIED c) @ '' '' @
            format_int 9 (stats s ! WB_WRITTEN c) @ '' '' @
            format_int 9 (avg_bw s) @ '' '')"
    using assms by (simp add: table_row_str_def getitem_def)
  have col: "format_str 16 (last16 (name s)) =
       drop (length (name s) - 16) (name s) @ replicate (16 - length (name s)) CHR '' ''"
    by (simp add: format_str_def last16_def)
  have len: "length (format_str 16 (last16 (name s))) = 16"
    by (simp add: length_format_str length_last16)
  have num: "\<forall>w v. format_int w v = replicate (w - length (str_int v)) CHR '' '' @ str_int v \<and>
        length (format_int w v) = max w (length (str_int v))"
    by (simp add: format_int_def max_def)
  have d: "\<exists>d. dict c s now = Inr d \<and> map_of d ''name'' = Some (PyStr (name s))"
    using assms by (simp add: dict_def getitem_def)
  from row col len num d show ?thesis by blast
qed

theorem table_row_layout_witness:
  "WB_WRITEBACK example_prog < length (stats \<lparr>name = ''abcdefghijklmnopqrstuvwxyz'', stats = [1, 2, 3, 4], avg_bw = 5\<rparr>) \<and>
   WB_RECLAIMABLE example_prog < length (stats \<lparr>name = ''abcdefghijklmnopqrstuvwxyz'', stats = [1, 2, 3, 4], avg_bw = 5\<rparr>) \<and>
   WB_DIRTIED example_prog < length (stats \<lparr>name = ''abcdefghijklmnopqrstuvwxyz'', stats = [1, 2, 3, 4], avg_bw = 5\<rparr>) \<and>
   WB_WRITTEN example_prog < length (stats \<lparr>name = ''abcdefghijklmnopqrstuvwxyz'', stats = [1, 2, 3, 4], avg_bw = 5\<rparr>) \<and>
   table_row_str example_prog
       \<lparr>name = ''abcdefghijklmnopqrstuvwxyz'', stats = [1, 2, 3, 4], avg_bw = 5\<rparr> =
     Inr ''klmnopqrstuvwxyz          2            1         3         4         5 ''"
proof -
  let ?s = "\<lparr>name = ''abcdefghijklmnopqrstuvwxyz'', stats = [1, 2, 3, 4], avg_bw = 5\<rparr>"
  have a: "WB_WRITEBACK example_prog < length (stats ?s)"
    and b: "WB_RECLAIMABLE example_prog < length (stats ?s)"
    and c: "WB_DIRTIED example_prog < length (stats ?s)"
    and d: "WB_WRITTEN example_prog < length (stats ?s)"
    by (simp_all add: example_prog_def)
  from table_row_layout [OF a b c d, of 0]
  have "table_row_str example_prog ?s =
       Inr (format_str 16 (last16 (name ?s)) @ '' '' @
            format_int 10 (stats ?s ! WB_WRITEBACK example_prog) @ '' '' @
            format_int 12 (stats ?s ! WB_RECLAIMABLE example_prog) @ '' '' @
            format_int 9 (stats ?s ! WB_DIRTIED example_prog) @ '' '' @
            format_int 9 (stats ?s ! WB_WRITTEN example_prog) @ '' '' @
            format_int 9 (avg_bw ?s) @ '' '')"
    by blast
  also have "\<dots> = Inr ''klmnopqrstuvwxyz          2            1         3         4         5 ''"
    by (simp add: example_prog_def format_str_def format_int_def
      last16_def str_int_def str_nat.simps digit_char_def replicate_at_numeral)
  finally show ?thesis using a b c d by blast
qed

text \<open>
  The claim C8 as stated fails: the name \<^verbatim>\<open>sda\<close> is printed at the left of its column,
  not at the right, and a value of eleven digits makes its column, and so the row, wider
  than the fixed widths.
\<close>

theorem right_aligned_fixed_width_counterexample:
  "table_row_str example_prog \<lparr>name = ''sda'', stats = [0, 0, 0, 12345678901], avg_bw = - 4\<rparr> =
     Inr ''sda                       0            0         0 12345678901        -4 '' \<and>
   take 16 ''sda                       0            0         0 12345678901        -4 '' \<noteq>
     format_str_right 16 (last16 ''sda'') \<and>
   length ''sda                       0            0         0 12345678901        -4 '' \<noteq>
     16 + 10 + 12 + 9 + 9 + 9 + 6"
  by (simp add: table_row_str_def getitem_def example_prog_def format_str_def format_int_def
      format_str_right_def last16_def str_int_def str_nat.simps digit_char_def replicate_at_numeral)

end
